theory Spec2Isabelle
  imports Complex_Main
begin

section \<open>The salary tax calculator of \<^verbatim>\<open>src/lib/tax-calculations.ts\<close>\<close>

text \<open>
  The source is one pure function, \<^verbatim>\<open>calculateTax\<close>, from four parameters to a
  record of fifteen numbers. It raises nothing and has no loop, so a model is one
  definition returning a record.

  The function is modelled twice, line by line each time. \<open>calculateTax\<close> computes in
  exact real arithmetic, the number type of the specification: the decimal constants
  \<^verbatim>\<open>0.12\<close>, \<^verbatim>\<open>0.04\<close>, \<^verbatim>\<open>0.0481\<close> and the slab rates are the exact fractions they denote,
  and \<^verbatim>\<open>Math.max\<close> and \<^verbatim>\<open>Math.min\<close> are \<^const>\<open>max\<close> and \<^const>\<open>min\<close>. \<open>calculateTax64\<close>
  computes as the code does, in IEEE 754 binary64: every literal and every operation is
  rounded to the nearest double, ties to even, and NaN and the two infinities are
  values. Statements that rounding, NaN or an infinity can break are made about
  \<open>calculateTax64\<close>.
\<close>

subsection \<open>The result record (interface \<^verbatim>\<open>TaxResults\<close>, lines 1-17)\<close>

text \<open>
  The fifteen fields all have the type \<^verbatim>\<open>number\<close>; the record takes that type as a
  parameter, so that both models return it.
\<close>

record 'n TaxResults =
  grossSalary :: 'n
  basicPay :: 'n
  standardDeduction :: 'n
  taxableIncome :: 'n
  incomeTax :: 'n
  cess :: 'n
  totalTax :: 'n
  netSalary :: 'n
  employeePF :: 'n
  employerPF :: 'n
  gratuityAmount :: 'n
  professionalTax :: 'n
  totalDeductions :: 'n
  inHandSalary :: 'n
  inHandSalaryPerMonth :: 'n

subsection \<open>Exact arithmetic: the constants (lines 26-29)\<close>

definition STANDARD_DEDUCTION :: real where
  "STANDARD_DEDUCTION = 75000"

definition PF_RATE :: real where
  "PF_RATE = 0.12"

definition CESS_RATE :: real where
  "CESS_RATE = 0.04"

definition GRATUITY_RATE :: real where
  "GRATUITY_RATE = 0.0481"

subsection \<open>Exact arithmetic: \<^verbatim>\<open>calculateTax\<close> (lines 19-98)\<close>

text \<open>
  The body follows the source line by line, one \<open>let\<close> binding for each \<^verbatim>\<open>const\<close>.
  The parameters and the local constants keep their names; they are bound variables
  here, so inside the definition they hide the record selectors of the same name. The
  two flags default to \<^verbatim>\<open>false\<close> in the source when a caller omits them; the model takes
  them explicitly.
\<close>

definition calculateTax :: "real \<Rightarrow> real \<Rightarrow> bool \<Rightarrow> bool \<Rightarrow> real TaxResults" where
  "calculateTax = (\<lambda>grossSalary basicPayPercentage employerPfIncluded considerGratuity.
     let actualBasicPayPercentage = max 50 basicPayPercentage;
         basicPay = grossSalary * (actualBasicPayPercentage / 100);
         employeePF = basicPay * PF_RATE;
         employerPF = basicPay * PF_RATE;
         gratuityAmount = (if considerGratuity then basicPay * GRATUITY_RATE else 0);
         totalPFDeduction = (if employerPfIncluded then employeePF + employerPF else employeePF);
         netSalary = grossSalary - gratuityAmount - totalPFDeduction;
         taxableIncome = max 0 (grossSalary - STANDARD_DEDUCTION);
         incomeTax =
           0.05 * max 0 (min taxableIncome 800000 - 400000) +
           0.1 * max 0 (min taxableIncome 1200000 - 800000) +
           0.15 * max 0 (min taxableIncome 1600000 - 1200000) +
           0.2 * max 0 (min taxableIncome 2000000 - 1600000) +
           0.25 * max 0 (min taxableIncome 2400000 - 2000000) +
           0.3 * max 0 (taxableIncome - 2400000);
         cess = incomeTax * CESS_RATE;
         professionalTax = 12 * 200;
         totalTax = incomeTax + cess + professionalTax;
         totalDeductions = gratuityAmount + totalPFDeduction;
         inHandSalary = netSalary - totalTax;
         inHandSalaryPerMonth = inHandSalary / 12
     in \<lparr> grossSalary = grossSalary,
          basicPay = basicPay,
          standardDeduction = STANDARD_DEDUCTION,
          taxableIncome = taxableIncome,
          incomeTax = incomeTax,
          cess = cess,
          totalTax = totalTax,
          netSalary = netSalary,
          employeePF = employeePF,
          employerPF = employerPF,
          gratuityAmount = gratuityAmount,
          professionalTax = professionalTax,
          totalDeductions = totalDeductions,
          inHandSalary = inHandSalary,
          inHandSalaryPerMonth = inHandSalaryPerMonth \<rparr>)"

subsection \<open>Exact arithmetic: the slab expression on its own (lines 57-63)\<close>

text \<open>
  The six-summand expression of lines 57-63, as a function of the taxable income it is
  applied to. Lemma \<open>incomeTax_is_slabTax\<close> below shows that the \<open>incomeTax\<close> field of
  every result is this function at the \<open>taxableIncome\<close> field of the same result.
\<close>

definition slabTax :: "real \<Rightarrow> real" where
  "slabTax = (\<lambda>taxableIncome.
      0.05 * max 0 (min taxableIncome 800000 - 400000) +
      0.1 * max 0 (min taxableIncome 1200000 - 800000) +
      0.15 * max 0 (min taxableIncome 1600000 - 1200000) +
      0.2 * max 0 (min taxableIncome 2000000 - 1600000) +
      0.25 * max 0 (min taxableIncome 2400000 - 2000000) +
      0.3 * max 0 (taxableIncome - 2400000))"

subsection \<open>Double arithmetic: the values\<close>

text \<open>
  A \<^verbatim>\<open>number\<close> of the code is a finite double, an infinity or NaN. \<open>Fin x\<close> carries the
  real value of a finite double; the operations below build \<open>Fin x\<close> only through \<open>rnd\<close>
  or by negating an operand, so their results are doubles when their operands are, and
  \<open>is_double\<close> says that an input is one. The
  two zeros of binary64 are one value here: the function divides only by the literals
  100 and 12 and never inspects the sign of a zero, and the two compare equal.
\<close>

datatype number = Fin real | PInf | NInf | NaN

subsection \<open>Double arithmetic: rounding to the nearest double\<close>

text \<open>
  \<open>expo a\<close> is the binary exponent of a positive \<open>a\<close>, found by halving or doubling
  \<open>a\<close> into the interval from 1 to 2, and kept between -1022 (below which doubles are
  subnormal and share one spacing) and 1023 (the largest exponent). The spacing of the
  doubles around \<open>x\<close> is 2 to the power \<open>expo \<bar>x\<bar> - 52\<close>. \<open>rhe\<close> rounds a real to the nearest
  integer, a tie to the even one. \<open>rnd_val x\<close> is the multiple of the spacing nearest to
  \<open>x\<close>, and \<open>rnd x\<close> is that double, or an infinity when it reaches 2 to the power 1024.
\<close>

fun expo_up :: "nat \<Rightarrow> real \<Rightarrow> int" where
  "expo_up k x = (if k = 0 \<or> x < 2 then 0 else 1 + expo_up (k - 1) (x / 2))"

fun expo_down :: "nat \<Rightarrow> real \<Rightarrow> int" where
  "expo_down k x = (if k = 0 \<or> 1 \<le> x then 0 else expo_down (k - 1) (2 * x) - 1)"

declare expo_up.simps [simp del] expo_down.simps [simp del]

definition expo :: "real \<Rightarrow> int" where
  "expo a = (if 1 \<le> a then expo_up 1023 a else expo_down 1022 a)"

definition rhe :: "real \<Rightarrow> int" where
  "rhe q = (let f = \<lfloor>q\<rfloor>; d = q - of_int f
            in if d < 1 / 2 then f else if 1 / 2 < d then f + 1
               else if even f then f else f + 1)"

definition rnd_val :: "real \<Rightarrow> real" where
  "rnd_val x = (if x = 0 then 0
                else let q = 2 powi (expo \<bar>x\<bar> - 52) in of_int (rhe (x / q)) * q)"

definition rnd :: "real \<Rightarrow> number" where
  "rnd x = (let y = rnd_val x
            in if 2 ^ 1024 \<le> \<bar>y\<bar> then (if 0 < y then PInf else NInf) else Fin y)"

fun is_double :: "number \<Rightarrow> bool" where
  "is_double (Fin a) = (rnd a = Fin a)"
| "is_double x = True"

subsection \<open>Double arithmetic: the operations\<close>

text \<open>
  Addition, subtraction and multiplication of finite doubles round the exact result;
  the other cases are those of IEEE 754. \<open>fdivc x d\<close> is \<^verbatim>\<open>x / d\<close> for a literal divisor
  \<open>d\<close> that is finite and not zero: the code divides by 100 and by 12 only. \<open>jle\<close> and
  \<open>jlt\<close> are the comparisons \<^verbatim>\<open><=\<close> and \<^verbatim>\<open><\<close>, false when an operand is NaN; \<open>jmax\<close> and
  \<open>jmin\<close> are \<^verbatim>\<open>Math.max\<close> and \<^verbatim>\<open>Math.min\<close> of two arguments, NaN when an argument is NaN.
\<close>

fun fneg :: "number \<Rightarrow> number" where
  "fneg (Fin a) = Fin (- a)"
| "fneg PInf = NInf"
| "fneg NInf = PInf"
| "fneg NaN = NaN"

fun fadd :: "number \<Rightarrow> number \<Rightarrow> number" where
  "fadd (Fin a) (Fin b) = rnd (a + b)"
| "fadd NaN y = NaN"
| "fadd x NaN = NaN"
| "fadd PInf NInf = NaN"
| "fadd NInf PInf = NaN"
| "fadd PInf y = PInf"
| "fadd x PInf = PInf"
| "fadd NInf y = NInf"
| "fadd x NInf = NInf"

definition fsub :: "number \<Rightarrow> number \<Rightarrow> number" where
  "fsub x y = fadd x (fneg y)"

fun fmul :: "number \<Rightarrow> number \<Rightarrow> number" where
  "fmul (Fin a) (Fin b) = rnd (a * b)"
| "fmul NaN y = NaN"
| "fmul x NaN = NaN"
| "fmul (Fin a) PInf = (if a = 0 then NaN else if 0 < a then PInf else NInf)"
| "fmul (Fin a) NInf = (if a = 0 then NaN else if 0 < a then NInf else PInf)"
| "fmul PInf (Fin b) = (if b = 0 then NaN else if 0 < b then PInf else NInf)"
| "fmul NInf (Fin b) = (if b = 0 then NaN else if 0 < b then NInf else PInf)"
| "fmul PInf PInf = PInf"
| "fmul PInf NInf = NInf"
| "fmul NInf PInf = NInf"
| "fmul NInf NInf = PInf"

fun fdivc :: "number \<Rightarrow> real \<Rightarrow> number" where
  "fdivc (Fin a) d = rnd (a / d)"
| "fdivc PInf d = (if 0 < d then PInf else NInf)"
| "fdivc NInf d = (if 0 < d then NInf else PInf)"
| "fdivc NaN d = NaN"

fun jle :: "number \<Rightarrow> number \<Rightarrow> bool" where
  "jle NaN y = False"
| "jle x NaN = False"
| "jle NInf y = True"
| "jle x PInf = True"
| "jle (Fin a) (Fin b) = (a \<le> b)"
| "jle x y = False"

fun jlt :: "number \<Rightarrow> number \<Rightarrow> bool" where
  "jlt NaN y = False"
| "jlt x NaN = False"
| "jlt (Fin a) (Fin b) = (a < b)"
| "jlt NInf NInf = False"
| "jlt PInf PInf = False"
| "jlt NInf y = True"
| "jlt x PInf = True"
| "jlt x y = False"

fun jmax :: "number \<Rightarrow> number \<Rightarrow> number" where
  "jmax NaN y = NaN"
| "jmax x NaN = NaN"
| "jmax x y = (if jle x y then y else x)"

fun jmin :: "number \<Rightarrow> number \<Rightarrow> number" where
  "jmin NaN y = NaN"
| "jmin x NaN = NaN"
| "jmin x y = (if jle x y then x else y)"

subsection \<open>Double arithmetic: \<^verbatim>\<open>calculateTax\<close> (lines 19-98)\<close>

text \<open>
  The same body with the operations of binary64. A decimal literal is the double nearest
  to it, \<open>rnd\<close> of the decimal; the whole-number literals are doubles already (lemma
  \<open>integer_literals\<close>). Sums are taken from left to right, as the source writes them.
\<close>

definition calculateTax64 :: "number \<Rightarrow> number \<Rightarrow> bool \<Rightarrow> bool \<Rightarrow> number TaxResults" where
  "calculateTax64 = (\<lambda>grossSalary basicPayPercentage employerPfIncluded considerGratuity.
     let STANDARD_DEDUCTION = Fin 75000;
         PF_RATE = rnd 0.12;
         CESS_RATE = rnd 0.04;
         GRATUITY_RATE = rnd 0.0481;
         actualBasicPayPercentage = jmax (Fin 50) basicPayPercentage;
         basicPay = fmul grossSalary (fdivc actualBasicPayPercentage 100);
         employeePF = fmul basicPay PF_RATE;
         employerPF = fmul basicPay PF_RATE;
         gratuityAmount = (if considerGratuity then fmul basicPay GRATUITY_RATE else Fin 0);
         totalPFDeduction = (if employerPfIncluded then fadd employeePF employerPF else employeePF);
         netSalary = fsub (fsub grossSalary gratuityAmount) totalPFDeduction;
         taxableIncome = jmax (Fin 0) (fsub grossSalary STANDARD_DEDUCTION);
         incomeTax =
           fadd (fadd (fadd (fadd (fadd
             (fmul (rnd 0.05) (jmax (Fin 0) (fsub (jmin taxableIncome (Fin 800000)) (Fin 400000))))
             (fmul (rnd 0.1) (jmax (Fin 0) (fsub (jmin taxableIncome (Fin 1200000)) (Fin 800000)))))
             (fmul (rnd 0.15) (jmax (Fin 0) (fsub (jmin taxableIncome (Fin 1600000)) (Fin 1200000)))))
             (fmul (rnd 0.2) (jmax (Fin 0) (fsub (jmin taxableIncome (Fin 2000000)) (Fin 1600000)))))
             (fmul (rnd 0.25) (jmax (Fin 0) (fsub (jmin taxableIncome (Fin 2400000)) (Fin 2000000)))))
             (fmul (rnd 0.3) (jmax (Fin 0) (fsub taxableIncome (Fin 2400000))));
         cess = fmul incomeTax CESS_RATE;
         professionalTax = fmul (Fin 12) (Fin 200);
         totalTax = fadd (fadd incomeTax cess) professionalTax;
         totalDeductions = fadd gratuityAmount totalPFDeduction;
         inHandSalary = fsub netSalary totalTax;
         inHandSalaryPerMonth = fdivc inHandSalary 12
     in \<lparr> grossSalary = grossSalary,
          basicPay = basicPay,
          standardDeduction = STANDARD_DEDUCTION,
          taxableIncome = taxableIncome,
          incomeTax = incomeTax,
          cess = cess,
          totalTax = totalTax,
          netSalary = netSalary,
          employeePF = employeePF,
          employerPF = employerPF,
          gratuityAmount = gratuityAmount,
          professionalTax = professionalTax,
          totalDeductions = totalDeductions,
          inHandSalary = inHandSalary,
          inHandSalaryPerMonth = inHandSalaryPerMonth \<rparr>)"

definition slabTax64 :: "number \<Rightarrow> number" where
  "slabTax64 = (\<lambda>taxableIncome.
           fadd (fadd (fadd (fadd (fadd
             (fmul (rnd 0.05) (jmax (Fin 0) (fsub (jmin taxableIncome (Fin 800000)) (Fin 400000))))
             (fmul (rnd 0.1) (jmax (Fin 0) (fsub (jmin taxableIncome (Fin 1200000)) (Fin 800000)))))
             (fmul (rnd 0.15) (jmax (Fin 0) (fsub (jmin taxableIncome (Fin 1600000)) (Fin 1200000)))))
             (fmul (rnd 0.2) (jmax (Fin 0) (fsub (jmin taxableIncome (Fin 2000000)) (Fin 1600000)))))
             (fmul (rnd 0.25) (jmax (Fin 0) (fsub (jmin taxableIncome (Fin 2400000)) (Fin 2000000)))))
             (fmul (rnd 0.3) (jmax (Fin 0) (fsub taxableIncome (Fin 2400000)))))"

section \<open>Exact arithmetic: the fields of a result\<close>

text \<open>
  Each field of the result, read off the definition: one lemma for each \<^verbatim>\<open>const\<close> of
  the source, stating it from the fields it is computed from.
\<close>

lemmas rate_defs = STANDARD_DEDUCTION_def PF_RATE_def CESS_RATE_def GRATUITY_RATE_def

lemmas calc_unfold = calculateTax_def Let_def TaxResults.select_convs

lemma grossSalary_eq:
  "grossSalary (calculateTax g p e c) = g"
  by (simp only: calc_unfold)

lemma basicPay_eq:
  "basicPay (calculateTax g p e c) = g * (max 50 p / 100)"
  by (simp only: calc_unfold)

lemma standardDeduction_eq:
  "standardDeduction (calculateTax g p e c) = STANDARD_DEDUCTION"
  by (simp only: calc_unfold)

lemma employeePF_eq:
  "employeePF (calculateTax g p e c) = basicPay (calculateTax g p e c) * PF_RATE"
  by (simp only: calc_unfold)

lemma employerPF_eq:
  "employerPF (calculateTax g p e c) = basicPay (calculateTax g p e c) * PF_RATE"
  by (simp only: calc_unfold)

lemma gratuityAmount_eq:
  "gratuityAmount (calculateTax g p e c) =
     (if c then basicPay (calculateTax g p e c) * GRATUITY_RATE else 0)"
  by (simp only: calc_unfold)

lemma taxableIncome_eq:
  "taxableIncome (calculateTax g p e c) = max 0 (g - STANDARD_DEDUCTION)"
  by (simp only: calc_unfold)

lemma incomeTax_is_slabTax:
  "incomeTax (calculateTax g p e c) = slabTax (taxableIncome (calculateTax g p e c))"
  by (simp only: calc_unfold slabTax_def)

lemma cess_eq:
  "cess (calculateTax g p e c) = incomeTax (calculateTax g p e c) * CESS_RATE"
  by (simp only: calc_unfold)

lemma professionalTax_eq:
  "professionalTax (calculateTax g p e c) = 12 * 200"
  by (simp only: calc_unfold)

lemma totalTax_eq:
  "totalTax (calculateTax g p e c) =
     incomeTax (calculateTax g p e c) + cess (calculateTax g p e c)
       + professionalTax (calculateTax g p e c)"
  by (simp only: calc_unfold)

lemma netSalary_eq:
  "netSalary (calculateTax g p e c) =
     g - gratuityAmount (calculateTax g p e c)
       - (if e then employeePF (calculateTax g p e c) + employerPF (calculateTax g p e c)
          else employeePF (calculateTax g p e c))"
  by (simp only: calc_unfold)

lemma totalDeductions_eq:
  "totalDeductions (calculateTax g p e c) =
     gratuityAmount (calculateTax g p e c)
       + (if e then employeePF (calculateTax g p e c) + employerPF (calculateTax g p e c)
          else employeePF (calculateTax g p e c))"
  by (simp only: calc_unfold)

lemma inHandSalary_eq:
  "inHandSalary (calculateTax g p e c) =
     netSalary (calculateTax g p e c) - totalTax (calculateTax g p e c)"
  by (simp only: calc_unfold)

lemma inHandSalaryPerMonth_eq:
  "inHandSalaryPerMonth (calculateTax g p e c) = inHandSalary (calculateTax g p e c) / 12"
  by (simp only: calc_unfold)

lemmas field_eqs = basicPay_eq employeePF_eq employerPF_eq gratuityAmount_eq
  taxableIncome_eq incomeTax_is_slabTax cess_eq professionalTax_eq totalTax_eq netSalary_eq
  totalDeductions_eq inHandSalary_eq inHandSalaryPerMonth_eq

section \<open>Exact arithmetic: the slab function\<close>

lemma seg_mono: "a \<le> b \<Longrightarrow> max 0 (min a u - l) \<le> max (0::real) (min b u - l)"
  by (simp add: max_def min_def)

lemma top_mono: "a \<le> b \<Longrightarrow> max 0 (a - l) \<le> max (0::real) (b - l)"
  by (simp add: max_def)

lemma slabTax_mono: "a \<le> b \<Longrightarrow> slabTax a \<le> slabTax b"
  unfolding slabTax_def
  by (intro add_mono mult_left_mono seg_mono top_mono) simp_all

lemma slabTax_continuous: "continuous_on UNIV slabTax"
  unfolding slabTax_def by (intro continuous_intros)

lemma slabTax_zero_band: "t \<le> 400000 \<Longrightarrow> slabTax t = 0"
  by (simp add: slabTax_def max_def min_def)

lemma basicPay_nonneg: "0 \<le> g \<Longrightarrow> 0 \<le> basicPay (calculateTax g p e c)"
  unfolding basicPay_eq by (rule mult_nonneg_nonneg) simp_all

section \<open>Scenario 1\<close>

text \<open>
  Claim C1. The call \<^verbatim>\<open>calculateTax(1200000, 50, false, false)\<close> returns basicPay 600000,
  employeePF 72000, taxableIncome 1125000, incomeTax 52500, cess 2100, professionalTax
  2400, totalTax 57000, netSalary 1128000, inHandSalary 1071000 and inHandSalaryPerMonth
  89250.
\<close>

theorem scenario1_values:
  "basicPay (calculateTax 1200000 50 False False) = 600000 \<and>
   employeePF (calculateTax 1200000 50 False False) = 72000 \<and>
   taxableIncome (calculateTax 1200000 50 False False) = 1125000 \<and>
   incomeTax (calculateTax 1200000 50 False False) = 52500 \<and>
   cess (calculateTax 1200000 50 False False) = 2100 \<and>
   professionalTax (calculateTax 1200000 50 False False) = 2400 \<and>
   totalTax (calculateTax 1200000 50 False False) = 57000 \<and>
   netSalary (calculateTax 1200000 50 False False) = 1128000 \<and>
   inHandSalary (calculateTax 1200000 50 False False) = 1071000 \<and>
   inHandSalaryPerMonth (calculateTax 1200000 50 False False) = 89250"
  by (simp add: field_eqs rate_defs slabTax_def)

section \<open>Income tax as a function of taxable income\<close>

text \<open>
  Claim C2. The incomeTax of a result is the slab function at the taxableIncome of the
  same result; that function is continuous on the whole line and non-decreasing, so a
  result with no smaller taxableIncome has no smaller incomeTax; and it is 0 at 400000,
  20000 at 800000 and 60000 at 1200000, which are the taxable incomes of the gross salaries
  475000, 875000 and 1275000.
\<close>

theorem incomeTax_continuous_nondecreasing:
  "incomeTax (calculateTax g p e c) = slabTax (taxableIncome (calculateTax g p e c)) \<and>
   continuous_on UNIV slabTax \<and>
   (a \<le> b \<longrightarrow> slabTax a \<le> slabTax b) \<and>
   (taxableIncome (calculateTax g1 p1 e1 c1) \<le> taxableIncome (calculateTax g2 p2 e2 c2) \<longrightarrow>
      incomeTax (calculateTax g1 p1 e1 c1) \<le> incomeTax (calculateTax g2 p2 e2 c2)) \<and>
   slabTax 400000 = 0 \<and> slabTax 800000 = 20000 \<and> slabTax 1200000 = 60000 \<and>
   taxableIncome (calculateTax 475000 p e c) = 400000 \<and>
   incomeTax (calculateTax 475000 p e c) = 0 \<and>
   taxableIncome (calculateTax 875000 p e c) = 800000 \<and>
   incomeTax (calculateTax 875000 p e c) = 20000 \<and>
   taxableIncome (calculateTax 1275000 p e c) = 1200000 \<and>
   incomeTax (calculateTax 1275000 p e c) = 60000"
proof -
  have v: "slabTax 400000 = 0" "slabTax 800000 = 20000" "slabTax 1200000 = 60000"
    by (simp_all add: slabTax_def)
  have t: "taxableIncome (calculateTax 475000 p e c) = 400000"
    "taxableIncome (calculateTax 875000 p e c) = 800000"
    "taxableIncome (calculateTax 1275000 p e c) = 1200000"
    by (simp_all add: taxableIncome_eq STANDARD_DEDUCTION_def)
  have m: "taxableIncome (calculateTax g1 p1 e1 c1) \<le> taxableIncome (calculateTax g2 p2 e2 c2) \<longrightarrow>
      incomeTax (calculateTax g1 p1 e1 c1) \<le> incomeTax (calculateTax g2 p2 e2 c2)"
    unfolding incomeTax_is_slabTax by (simp add: slabTax_mono)
  show ?thesis
    using v t m slabTax_continuous slabTax_mono [of a b]
    by (simp add: incomeTax_is_slabTax)
qed

theorem incomeTax_continuous_nondecreasing_witness:
  "(300000::real) \<le> 900000 \<and> slabTax 300000 \<le> slabTax 900000 \<and>
   taxableIncome (calculateTax 500000 50 False False)
     \<le> taxableIncome (calculateTax 1000000 50 False False) \<and>
   incomeTax (calculateTax 500000 50 False False)
     \<le> incomeTax (calculateTax 1000000 50 False False)"
proof -
  note inst = incomeTax_continuous_nondecreasing [where a = 300000 and b = 900000
      and ?g1.0 = 500000 and ?p1.0 = 50 and ?e1.0 = False and ?c1.0 = False
      and ?g2.0 = 1000000 and ?p2.0 = 50 and ?e2.0 = False and ?c2.0 = False
      and g = 0 and p = 50 and e = False and c = False]
  have h1: "(300000::real) \<le> 900000"
    by simp
  have h2: "taxableIncome (calculateTax 500000 50 False False)
     \<le> taxableIncome (calculateTax 1000000 50 False False)"
    by (simp add: taxableIncome_eq STANDARD_DEDUCTION_def)
  from inst h1 have "slabTax 300000 \<le> slabTax 900000"
    by blast
  moreover from inst h2 have "incomeTax (calculateTax 500000 50 False False)
     \<le> incomeTax (calculateTax 1000000 50 False False)"
    by blast
  ultimately show ?thesis
    using h1 h2 by blast
qed

section \<open>The two flags\<close>

text \<open>
  Claim C5. Two runs on the same grossSalary and basicPayPercentage, with any values of
  the two flags, agree on taxableIncome, incomeTax, cess and totalTax, and on every other
  field outside netSalary, gratuityAmount, totalDeductions, inHandSalary and
  inHandSalaryPerMonth: grossSalary, basicPay, standardDeduction, employeePF, employerPF
  and professionalTax.
\<close>

theorem flags_leave_tax_fields_unchanged:
  "taxableIncome (calculateTax g p e1 c1) = taxableIncome (calculateTax g p e2 c2) \<and>
   incomeTax (calculateTax g p e1 c1) = incomeTax (calculateTax g p e2 c2) \<and>
   cess (calculateTax g p e1 c1) = cess (calculateTax g p e2 c2) \<and>
   totalTax (calculateTax g p e1 c1) = totalTax (calculateTax g p e2 c2) \<and>
   grossSalary (calculateTax g p e1 c1) = grossSalary (calculateTax g p e2 c2) \<and>
   basicPay (calculateTax g p e1 c1) = basicPay (calculateTax g p e2 c2) \<and>
   standardDeduction (calculateTax g p e1 c1) = standardDeduction (calculateTax g p e2 c2) \<and>
   employeePF (calculateTax g p e1 c1) = employeePF (calculateTax g p e2 c2) \<and>
   employerPF (calculateTax g p e1 c1) = employerPF (calculateTax g p e2 c2) \<and>
   professionalTax (calculateTax g p e1 c1) = professionalTax (calculateTax g p e2 c2)"
  by (simp only: taxableIncome_eq incomeTax_is_slabTax cess_eq totalTax_eq grossSalary_eq
      basicPay_eq standardDeduction_eq employeePF_eq employerPF_eq professionalTax_eq
      simp_thms)

text \<open>
  Claim C6. In every result employeePF and employerPF are equal, both 12 percent of
  basicPay, and employerPF is the same with the employerPfIncluded flag set and unset.
\<close>

theorem pf_contributions_equal:
  "employeePF (calculateTax g p e c) = employerPF (calculateTax g p e c) \<and>
   employeePF (calculateTax g p e c) = basicPay (calculateTax g p e c) * 0.12 \<and>
   employerPF (calculateTax g p e c) = basicPay (calculateTax g p e c) * 0.12 \<and>
   employerPF (calculateTax g p True c) = employerPF (calculateTax g p False c)"
  by (simp add: employeePF_eq employerPF_eq basicPay_eq PF_RATE_def)

section \<open>Taxable income\<close>

text \<open>
  Claim C7. For a grossSalary that is not negative, taxableIncome is
  max(0, grossSalary - 75000), and with the other inputs fixed it is non-decreasing in
  grossSalary.
\<close>

theorem taxableIncome_formula_monotone:
  "(0 \<le> g \<longrightarrow> taxableIncome (calculateTax g p e c) = max 0 (g - 75000)) \<and>
   (0 \<le> g1 \<and> g1 \<le> g2 \<longrightarrow>
      taxableIncome (calculateTax g1 p e c) \<le> taxableIncome (calculateTax g2 p e c))"
  by (simp add: taxableIncome_eq STANDARD_DEDUCTION_def max_def)

theorem taxableIncome_formula_monotone_witness:
  "(0::real) \<le> 100000 \<and>
   taxableIncome (calculateTax 100000 50 False False) = max 0 (100000 - 75000) \<and>
   (100000::real) \<le> 200000 \<and>
   taxableIncome (calculateTax 100000 50 False False)
     \<le> taxableIncome (calculateTax 200000 50 False False)"
  using taxableIncome_formula_monotone [of 100000 50 False False 100000 200000]
  by simp

section \<open>In-hand salary at small gross salaries\<close>

text \<open>
  Claim C10. The call \<^verbatim>\<open>calculateTax(0, 50, false, false)\<close> returns inHandSalary -2400 and
  inHandSalaryPerMonth -200. In-hand salary is not floored at zero: it is negative for
  every grossSalary from 0 up to, but not including, 2400, whatever the basic pay
  percentage and the flags.
\<close>

theorem zero_gross_in_hand_negative:
  "inHandSalary (calculateTax 0 50 False False) = - 2400 \<and>
   inHandSalaryPerMonth (calculateTax 0 50 False False) = - 200 \<and>
   (0 \<le> g \<and> g < 2400 \<longrightarrow> inHandSalary (calculateTax g p e c) < 0)"
proof (intro conjI impI)
  show "inHandSalary (calculateTax 0 50 False False) = - 2400"
    by (simp add: field_eqs rate_defs slabTax_def)
  show "inHandSalaryPerMonth (calculateTax 0 50 False False) = - 200"
    by (simp add: field_eqs rate_defs slabTax_def)
next
  assume g: "0 \<le> g \<and> g < 2400"
  then have bp: "0 \<le> basicPay (calculateTax g p e c)"
    by (simp add: basicPay_nonneg)
  have pf: "0 \<le> employeePF (calculateTax g p e c)" "0 \<le> employerPF (calculateTax g p e c)"
    unfolding employeePF_eq employerPF_eq PF_RATE_def using bp by simp_all
  have gr: "0 \<le> gratuityAmount (calculateTax g p e c)"
    unfolding gratuityAmount_eq GRATUITY_RATE_def using bp by (cases c) simp_all
  have net: "netSalary (calculateTax g p e c) \<le> g"
    unfolding netSalary_eq using pf gr by (cases e) simp_all
  have "taxableIncome (calculateTax g p e c) = 0"
    using g by (simp add: taxableIncome_eq STANDARD_DEDUCTION_def)
  then have "incomeTax (calculateTax g p e c) = 0"
    unfolding incomeTax_is_slabTax by (simp add: slabTax_zero_band)
  then have "totalTax (calculateTax g p e c) = 2400"
    unfolding totalTax_eq cess_eq professionalTax_eq by simp
  then show "inHandSalary (calculateTax g p e c) < 0"
    unfolding inHandSalary_eq using net g by simp
qed

theorem zero_gross_in_hand_negative_witness:
  "(0::real) \<le> 1000 \<and> (1000::real) < 2400 \<and>
   inHandSalary (calculateTax 1000 50 False False) < 0"
  using zero_gross_in_hand_negative [of 1000 50 False False] by simp

section \<open>Double arithmetic: rounding\<close>

text \<open>
  The exponent search returns the exponent of its argument, or the nearer end of its
  range. From that: rounding is monotone, it keeps the sign, and it leaves a double
  unchanged.
\<close>

lemmas ev = expo_def expo_up.simps expo_down.simps rhe_def rnd_val_def rnd_def Let_def

lemma expo_up_bounds:
  "1 \<le> x \<Longrightarrow>
     0 \<le> expo_up k x \<and> expo_up k x \<le> int k \<and> 2 powi (expo_up k x) \<le> x \<and>
     (x < 2 ^ (k + 1) \<longrightarrow> x < 2 powi (expo_up k x + 1)) \<and>
     (2 ^ (k + 1) \<le> x \<longrightarrow> expo_up k x = int k)"
proof (induction k x rule: expo_up.induct)
  case (1 k x)
  show ?case
  proof (cases "k = 0 \<or> x < 2")
    case True
    then have e: "expo_up k x = 0"
      by (simp add: expo_up.simps)
    have "x < 2 ^ (k + 1) \<longrightarrow> x < 2"
      using True by auto
    moreover have "2 ^ (k + 1) \<le> x \<longrightarrow> k = 0"
    proof
      assume h: "2 ^ (k + 1) \<le> x"
      have "(1::real) \<le> 2 ^ k"
        by simp
      with h True show "k = 0" by auto
    qed
    ultimately show ?thesis
      using 1(2) e by simp
  next
    case False
    then have k: "0 < k" and x: "2 \<le> x"
      by auto
    have e: "expo_up k x = 1 + expo_up (k - 1) (x / 2)"
      using False by (subst expo_up.simps) simp
    have ih: "0 \<le> expo_up (k - 1) (x / 2) \<and> expo_up (k - 1) (x / 2) \<le> int (k - 1) \<and>
        2 powi (expo_up (k - 1) (x / 2)) \<le> x / 2 \<and>
        (x / 2 < 2 ^ (k - 1 + 1) \<longrightarrow> x / 2 < 2 powi (expo_up (k - 1) (x / 2) + 1)) \<and>
        (2 ^ (k - 1 + 1) \<le> x / 2 \<longrightarrow> expo_up (k - 1) (x / 2) = int (k - 1))"
      using 1(1) [OF False] x by simp
    define e' where "e' = expo_up (k - 1) (x / 2)"
    have p: "(2::real) ^ (k + 1) = 2 * 2 ^ (k - 1 + 1)"
      using k by (cases k) simp_all
    have s: "(2::real) powi (1 + e') = 2 * 2 powi e'" "(2::real) powi (1 + e' + 1) = 2 * 2 powi (e' + 1)"
      by (simp_all add: power_int_add)
    show ?thesis
      unfolding e using ih k unfolding e'_def [symmetric] s p
      by auto
  qed
qed

lemma expo_down_bounds:
  "0 < x \<Longrightarrow> x < 2 \<Longrightarrow>
     - int k \<le> expo_down k x \<and> expo_down k x \<le> 0 \<and> x < 2 powi (expo_down k x + 1) \<and>
     (2 powi (- int k) \<le> x \<longrightarrow> 2 powi (expo_down k x) \<le> x) \<and>
     (x < 2 powi (- int k) \<longrightarrow> expo_down k x = - int k)"
proof (induction k x rule: expo_down.induct)
  case (1 k x)
  show ?case
  proof (cases "k = 0 \<or> 1 \<le> x")
    case True
    then have e: "expo_down k x = 0"
      by (simp add: expo_down.simps)
    have "(2::real) powi (- int k) \<le> 1"
      by (simp add: power_int_minus inverse_le_1_iff  one_le_power)
    then have "x < 2 powi (- int k) \<longrightarrow> k = 0"
      using True by auto
    moreover have "2 powi (- int k) \<le> x \<longrightarrow> 1 \<le> x"
      using True by auto
    ultimately show ?thesis
      using 1(2,3) e by simp
  next
    case False
    then have k: "0 < k" and x: "x < 1"
      by auto
    have e: "expo_down k x = expo_down (k - 1) (2 * x) - 1"
      using False by (subst expo_down.simps) simp
    define e' where "e' = expo_down (k - 1) (2 * x)"
    have ih: "- int (k - 1) \<le> e' \<and> e' \<le> 0 \<and> 2 * x < 2 powi (e' + 1) \<and>
        (2 powi (- int (k - 1)) \<le> 2 * x \<longrightarrow> 2 powi e' \<le> 2 * x) \<and>
        (2 * x < 2 powi (- int (k - 1)) \<longrightarrow> e' = - int (k - 1))"
      unfolding e'_def using 1(1) [OF False] 1(2) x by simp
    have p: "(2::real) powi (- int (k - 1)) = 2 * 2 powi (- int k)"
    proof -
      have "- int (k - 1) = 1 + (- int k)" using k by simp
      then have "(2::real) powi (- int (k - 1)) = 2 powi (1 + (- int k))" by simp
      also have "\<dots> = 2 * 2 powi (- int k)" by (subst power_int_add) simp_all
      finally show ?thesis .
    qed
    have s: "(2::real) powi (e' + 1) = 2 * 2 powi (e' - 1 + 1)" "(2::real) powi e' = 2 * 2 powi (e' - 1)"
      by (simp_all add: power_int_add power_int_diff)
    have i: "- int (k - 1) \<le> e' \<longleftrightarrow> - int k \<le> e' - 1" "e' = - int (k - 1) \<longleftrightarrow> e' - 1 = - int k"
      using k by auto
    show ?thesis
      unfolding e e'_def [symmetric] using ih unfolding p i s
      by auto
  qed
qed

lemma expo_range: "0 < a \<Longrightarrow> - 1022 \<le> expo a \<and> expo a \<le> 1023"
  using expo_up_bounds [of a 1023] expo_down_bounds [of a 1022]
  by (auto simp: expo_def)

lemma expo_lower: "0 < a \<Longrightarrow> 2 powi (- 1022) \<le> a \<Longrightarrow> 2 powi (expo a) \<le> a"
  using expo_up_bounds [of a 1023] expo_down_bounds [of a 1022]
  by (auto simp: expo_def)

lemma expo_upper: "0 < a \<Longrightarrow> a < 2 ^ 1024 \<Longrightarrow> a < 2 powi (expo a + 1)"
  using expo_up_bounds [of a 1023] expo_down_bounds [of a 1022]
  by (auto simp: expo_def)

lemma expo_subnormal: "0 < a \<Longrightarrow> a < 2 powi (- 1022) \<Longrightarrow> expo a = - 1022"
proof -
  assume a: "0 < a" "a < 2 powi (- 1022)"
  have "(2::real) powi (- 1022) \<le> 1"
    by (simp add: power_int_minus)
  with a have "a < 1" by simp
  then show ?thesis
    using expo_down_bounds [of a 1022] a by (auto simp: expo_def)
qed

lemma expo_overflow: "2 ^ 1024 \<le> a \<Longrightarrow> expo a = 1023"
proof -
  assume a: "2 ^ 1024 \<le> a"
  have "(1::real) \<le> 2 ^ 1024" by simp
  with a have "1 \<le> a" by linarith
  then show ?thesis
    using expo_up_bounds [of a 1023] a by (auto simp: expo_def)
qed

lemma expo_mono:
  assumes "0 < a" "a \<le> b"
  shows "expo a \<le> expo b"
proof (rule ccontr)
  assume "\<not> expo a \<le> expo b"
  then have lt: "expo b < expo a" by simp
  have b: "0 < b" using assms by simp
  have "- 1022 < expo a"
    using lt expo_range [OF b] by simp
  then have "2 powi (- 1022) \<le> a"
    using expo_subnormal [OF assms(1)] by fastforce
  then have l: "2 powi (expo a) \<le> a"
    by (rule expo_lower [OF assms(1)])
  have "expo b < 1023"
    using lt expo_range [OF assms(1)] by simp
  then have "b < 2 ^ 1024"
    using expo_overflow [of b] by fastforce
  then have "b < 2 powi (expo b + 1)"
    by (rule expo_upper [OF b])
  also have "\<dots> \<le> 2 powi (expo a)"
    using lt by (intro power_int_increasing) simp_all
  finally show False
    using l assms(2) by simp
qed

lemma rhe_of_int: "rhe (of_int n) = n"
  by (simp add: rhe_def)

lemma rhe_near: "real_of_int (rhe q) \<le> q + 1 / 2 \<and> q - 1 / 2 \<le> real_of_int (rhe q)"
  unfolding rhe_def Let_def by (auto; linarith)

lemma rhe_mono:
  assumes "q1 \<le> q2"
  shows "rhe q1 \<le> rhe q2"
proof (cases "\<lfloor>q1\<rfloor> = \<lfloor>q2\<rfloor>")
  case True
  then show ?thesis
    using assms unfolding rhe_def Let_def by auto
next
  case False
  then have lt: "\<lfloor>q1\<rfloor> + 1 \<le> \<lfloor>q2\<rfloor>"
    using floor_mono [OF assms] by simp
  have "rhe q1 \<le> \<lfloor>q1\<rfloor> + 1"
    unfolding rhe_def Let_def by auto
  moreover have "\<lfloor>q2\<rfloor> \<le> rhe q2"
    unfolding rhe_def Let_def by auto
  ultimately show ?thesis
    using lt by simp
qed

lemma rhe_minus: "rhe (- q) = - rhe q"
proof (cases "q \<in> \<int>")
  case True
  then obtain n where "q = of_int n"
    by (auto elim: Ints_cases)
  then show ?thesis
    using rhe_of_int [of n] rhe_of_int [of "- n"] by simp
next
  case False
  have ne: "q \<noteq> of_int \<lfloor>q\<rfloor>"
    using False by (metis Ints_of_int)
  then have f: "\<lfloor>- q\<rfloor> = - \<lfloor>q\<rfloor> - 1"
    by (simp add: floor_minus ceiling_altdef)
  have lt: "of_int \<lfloor>q\<rfloor> < q"
    using ne of_int_floor_le [of q] by linarith
  show ?thesis
    unfolding rhe_def Let_def f using lt by (auto; linarith?)
qed

lemma rhe_ge_int: "of_int n \<le> q \<Longrightarrow> n \<le> rhe q"
  using rhe_mono [of "of_int n" q] by (simp add: rhe_of_int)

lemma rhe_le_int: "q \<le> of_int n \<Longrightarrow> rhe q \<le> n"
  using rhe_mono [of q "of_int n"] by (simp add: rhe_of_int)

lemma quantum_pos: "0 < (2::real) powi e"
  by simp

lemma quantum_scale:
  "2 ^ 52 * 2 powi (e - 52) = (2::real) powi e"
  "2 ^ 53 * 2 powi (e - 52) = (2::real) powi (e + 1)"
proof -
  have "(2::real) powi e = 2 powi (52 + (e - 52))" by simp
  also have "\<dots> = 2 powi 52 * 2 powi (e - 52)" by (subst power_int_add) simp_all
  finally show "2 ^ 52 * 2 powi (e - 52) = (2::real) powi e" by simp
  have "e + 1 = 53 + (e - 52)" by simp
  then have "(2::real) powi (e + 1) = 2 powi (53 + (e - 52))" by (rule arg_cong)
  also have "\<dots> = 2 powi 53 * 2 powi (e - 52)" by (subst power_int_add) simp_all
  finally show "2 ^ 53 * 2 powi (e - 52) = (2::real) powi (e + 1)" by simp
qed

lemma rnd_val_pos_eq:
  "0 < x \<Longrightarrow> rnd_val x = of_int (rhe (x / 2 powi (expo x - 52))) * 2 powi (expo x - 52)"
  by (simp add: rnd_val_def Let_def)

lemma rnd_val_minus: "rnd_val (- x) = - rnd_val x"
  by (simp add: rnd_val_def Let_def rhe_minus)

lemma rnd_val_nonneg:
  assumes "0 \<le> x"
  shows "0 \<le> rnd_val x"
proof (cases "x = 0")
  case True
  then show ?thesis by (simp add: rnd_val_def)
next
  case False
  then have x: "0 < x" using assms by simp
  have "of_int 0 \<le> x / 2 powi (expo x - 52)"
    using x by simp
  then have "0 \<le> rhe (x / 2 powi (expo x - 52))"
    by (rule rhe_ge_int)
  then show ?thesis
    unfolding rnd_val_pos_eq [OF x] by simp
qed

lemma rnd_val_lower:
  assumes x: "0 < x" and n: "2 powi (- 1022) \<le> x"
  shows "2 powi (expo x) \<le> rnd_val x"
proof -
  define q :: real where "q = 2 powi (expo x - 52)"
  have q: "0 < q" by (simp add: q_def)
  have "2 ^ 52 * q \<le> x"
    unfolding q_def quantum_scale using expo_lower [OF x n] .
  then have "of_int (2 ^ 52) \<le> x / q"
    using q by (simp add: pos_le_divide_eq)
  then have "2 ^ 52 \<le> rhe (x / q)"
    by (rule rhe_ge_int)
  then have "of_int (2 ^ 52) \<le> real_of_int (rhe (x / q))"
    by (simp only: of_int_le_iff)
  then have "(2::real) ^ 52 \<le> of_int (rhe (x / q))"
    by simp
  then have "2 ^ 52 * q \<le> of_int (rhe (x / q)) * q"
    using q by (simp only: mult_le_cancel_right_pos)
  then show ?thesis
    unfolding rnd_val_pos_eq [OF x] q_def quantum_scale .
qed

lemma rnd_val_upper:
  assumes x: "0 < x" and n: "x < 2 ^ 1024"
  shows "rnd_val x \<le> 2 powi (expo x + 1)"
proof -
  define q :: real where "q = 2 powi (expo x - 52)"
  have q: "0 < q" by (simp add: q_def)
  have "x \<le> 2 ^ 53 * q"
    unfolding q_def quantum_scale using expo_upper [OF x n] by simp
  then have "x / q \<le> of_int (2 ^ 53)"
    using q by (simp add: pos_divide_le_eq)
  then have "rhe (x / q) \<le> 2 ^ 53"
    by (rule rhe_le_int)
  then have "real_of_int (rhe (x / q)) \<le> of_int (2 ^ 53)"
    by (simp only: of_int_le_iff)
  then have "of_int (rhe (x / q)) \<le> (2::real) ^ 53"
    by simp
  then have "of_int (rhe (x / q)) * q \<le> 2 ^ 53 * q"
    using q by (simp only: mult_le_cancel_right_pos)
  then show ?thesis
    unfolding rnd_val_pos_eq [OF x] q_def quantum_scale .
qed

lemma rnd_val_mono_pos:
  assumes x: "0 < x" and xy: "x \<le> y"
  shows "rnd_val x \<le> rnd_val y"
proof -
  have y: "0 < y" using x xy by simp
  have le: "expo x \<le> expo y"
    using x xy by (rule expo_mono)
  show ?thesis
  proof (cases "expo x = expo y")
    case True
    have "x / 2 powi (expo y - 52) \<le> y / 2 powi (expo y - 52)"
      using xy by (simp add: divide_right_mono)
    then have "rhe (x / 2 powi (expo y - 52)) \<le> rhe (y / 2 powi (expo y - 52))"
      by (rule rhe_mono)
    then have "real_of_int (rhe (x / 2 powi (expo y - 52))) * 2 powi (expo y - 52)
        \<le> real_of_int (rhe (y / 2 powi (expo y - 52))) * 2 powi (expo y - 52)"
      by (simp only: mult_le_cancel_right_pos quantum_pos of_int_le_iff)
    then show ?thesis
      unfolding rnd_val_pos_eq [OF x] rnd_val_pos_eq [OF y] True .
  next
    case False
    then have lt: "expo x < expo y" using le by simp
    have "expo x < 1023"
      using lt expo_range [OF y] by simp
    then have "x < 2 ^ 1024"
      using expo_overflow [of x] by fastforce
    then have "rnd_val x \<le> 2 powi (expo x + 1)"
      by (rule rnd_val_upper [OF x])
    also have "\<dots> \<le> 2 powi (expo y)"
      using lt by (intro power_int_increasing) simp_all
    also have "\<dots> \<le> rnd_val y"
    proof -
      have "- 1022 < expo y"
        using lt expo_range [OF x] by simp
      then have "2 powi (- 1022) \<le> y"
        using expo_subnormal [OF y] by fastforce
      then show ?thesis
        by (rule rnd_val_lower [OF y])
    qed
    finally show ?thesis .
  qed
qed

lemma rnd_val_mono:
  assumes "x \<le> y"
  shows "rnd_val x \<le> rnd_val y"
proof -
  consider "0 < x" | "x \<le> 0" "0 \<le> y" | "y < 0"
    using assms by linarith
  then show ?thesis
  proof cases
    case 1
    then show ?thesis using assms by (rule rnd_val_mono_pos)
  next
    case 2
    have "rnd_val x \<le> 0"
      using rnd_val_nonneg [of "- x"] 2(1) by (simp add: rnd_val_minus)
    also have "0 \<le> rnd_val y"
      using 2(2) by (rule rnd_val_nonneg)
    finally show ?thesis .
  next
    case 3
    have "rnd_val (- y) \<le> rnd_val (- x)"
      using 3 assms by (intro rnd_val_mono_pos) simp_all
    then show ?thesis
      by (simp add: rnd_val_minus)
  qed
qed

lemma rnd_cases:
  obtains (fin) "rnd x = Fin (rnd_val x)" "\<bar>rnd_val x\<bar> < 2 ^ 1024"
  | (pinf) "rnd x = PInf" "2 ^ 1024 \<le> rnd_val x"
  | (ninf) "rnd x = NInf" "rnd_val x \<le> - (2 ^ 1024)"
proof (cases "2 ^ 1024 \<le> \<bar>rnd_val x\<bar>")
  case False
  then show ?thesis using fin by (simp add: rnd_def Let_def)
next
  case True
  show ?thesis
  proof (cases "0 < rnd_val x")
    case True
    with \<open>2 ^ 1024 \<le> \<bar>rnd_val x\<bar>\<close> show ?thesis using pinf by (simp add: rnd_def Let_def)
  next
    case False
    with \<open>2 ^ 1024 \<le> \<bar>rnd_val x\<bar>\<close> show ?thesis using ninf by (simp add: rnd_def Let_def)
  qed
qed

lemma rnd_not_NaN [simp]: "rnd x \<noteq> NaN"
  by (cases x rule: rnd_cases) simp_all

lemma NaN_absorbs [simp]:
  "fmul x NaN = NaN" "fadd x NaN = NaN"
  by (cases x; simp)+

lemma rnd_mono:
  assumes "x \<le> y"
  shows "jle (rnd x) (rnd y)"
proof -
  have m: "rnd_val x \<le> rnd_val y"
    using assms by (rule rnd_val_mono)
  define B :: real where "B = 2 ^ 1024"
  have B: "0 < B" by (simp add: B_def)
  show ?thesis
  proof (cases x rule: rnd_cases)
    case fin
    then have x: "- B < rnd_val x"
      unfolding B_def [symmetric] by (simp add: abs_less_iff)
    show ?thesis
    proof (cases y rule: rnd_cases)
      case fin
      with \<open>rnd x = Fin (rnd_val x)\<close> m show ?thesis by simp
    next
      case pinf
      with \<open>rnd x = Fin (rnd_val x)\<close> show ?thesis by simp
    next
      case ninf
      then have "rnd_val y \<le> - B" by (simp add: B_def)
      with x m show ?thesis by linarith
    qed
  next
    case pinf
    then have x: "B \<le> rnd_val x" by (simp add: B_def)
    show ?thesis
    proof (cases y rule: rnd_cases)
      case fin
      then have "rnd_val y < B"
        unfolding B_def [symmetric] by (simp add: abs_less_iff)
      with x m show ?thesis by linarith
    next
      case pinf
      with \<open>rnd x = PInf\<close> show ?thesis by simp
    next
      case ninf
      then have "rnd_val y \<le> - B" by (simp add: B_def)
      with x m B show ?thesis by linarith
    qed
  next
    case ninf
    then show ?thesis
      by (cases y rule: rnd_cases) simp_all
  qed
qed

lemma rnd_nonneg: "0 \<le> x \<Longrightarrow> jle (Fin 0) (rnd x)"
  using rnd_mono [of 0 x] by (simp add: rnd_def rnd_val_def)

lemma rnd_val_of_grid:
  assumes v: "0 < v" and g: "v / 2 powi (expo v - 52) = of_int N"
  shows "rnd_val v = v"
proof -
  have "rnd_val v = of_int (rhe (of_int N)) * 2 powi (expo v - 52)"
    unfolding rnd_val_pos_eq [OF v] g ..
  also have "\<dots> = v / 2 powi (expo v - 52) * 2 powi (expo v - 52)"
    unfolding rhe_of_int g ..
  also have "\<dots> = v"
    by simp
  finally show ?thesis .
qed

lemma powi_nonneg_int: "0 \<le> k \<Longrightarrow> (2::real) powi k = of_int (2 ^ nat k)"
  by (simp add: power_int_def)

lemma powi_quot: "(2::real) powi a / 2 powi b = 2 powi (a - b)"
  by (simp add: power_int_diff)

lemma rnd_val_idem_pos:
  assumes x: "0 < x"
  shows "rnd_val (rnd_val x) = rnd_val x"
proof -
  define e where "e = expo x"
  define n where "n = rhe (x / 2 powi (e - 52))"
  define v where "v = rnd_val x"
  have veq: "v = of_int n * 2 powi (e - 52)"
    unfolding v_def n_def e_def by (rule rnd_val_pos_eq [OF x])
  have v0: "0 \<le> v"
    unfolding v_def using x by (intro rnd_val_nonneg) simp
  show ?thesis
  proof (cases "v = 0")
    case True
    then show ?thesis
      unfolding v_def [symmetric] by (simp add: rnd_val_def)
  next
    case False
    then have v: "0 < v" using v0 by simp
    define e' where "e' = expo v"
    have "\<exists>N. v / 2 powi (e' - 52) = of_int N"
    proof (cases "e' \<le> e")
      case True
      have "v / 2 powi (e' - 52) = of_int n * (2 powi (e - 52) / 2 powi (e' - 52))"
        unfolding veq by simp
      also have "\<dots> = of_int n * 2 powi (e - e')"
        unfolding powi_quot by simp
      also have "\<dots> = of_int (n * 2 ^ nat (e - e'))"
        using True by (simp add: powi_nonneg_int)
      finally show ?thesis by blast
    next
      case False
      then have lt: "e < e'" by simp
      have "e < 1023"
        using lt expo_range [OF v] unfolding e'_def by simp
      then have "x < 2 ^ 1024"
        using expo_overflow [of x] unfolding e_def by fastforce
      then have up: "v \<le> 2 powi (e + 1)"
        unfolding v_def e_def by (rule rnd_val_upper [OF x])
      have "- 1022 < e'"
        using lt expo_range [OF x] unfolding e_def by simp
      then have "2 powi (- 1022) \<le> v"
        using expo_subnormal [OF v] unfolding e'_def by fastforce
      then have lo: "2 powi e' \<le> v"
        unfolding e'_def by (rule expo_lower [OF v])
      have "(2::real) powi (e + 1) \<le> 2 powi e'"
        using lt by (intro power_int_increasing) simp_all
      with up lo have eq: "v = 2 powi e'"
        by linarith
      have "v / 2 powi (e' - 52) = 2 powi 52"
        unfolding eq powi_quot by simp
      also have "\<dots> = of_int (2 ^ 52)"
        by simp
      finally show ?thesis by blast
    qed
    then obtain N where "v / 2 powi (expo v - 52) = of_int N"
      unfolding e'_def by blast
    with v have "rnd_val v = v"
      by (rule rnd_val_of_grid)
    then show ?thesis
      unfolding v_def .
  qed
qed

lemma rnd_val_idem: "rnd_val (rnd_val x) = rnd_val x"
proof -
  consider "0 < x" | "x = 0" | "x < 0" by linarith
  then show ?thesis
  proof cases
    case 1
    then show ?thesis by (rule rnd_val_idem_pos)
  next
    case 2
    then show ?thesis by (simp add: rnd_val_def)
  next
    case 3
    then have "rnd_val (rnd_val (- x)) = rnd_val (- x)"
      by (intro rnd_val_idem_pos) simp
    then show ?thesis
      by (simp add: rnd_val_minus)
  qed
qed

lemma rnd_is_double: "is_double (rnd x)"
proof (cases x rule: rnd_cases)
  case fin
  have "rnd (rnd_val x) = Fin (rnd_val x)"
    using fin(2) by (simp add: rnd_def Let_def rnd_val_idem)
  with fin(1) show ?thesis by simp
qed simp_all

lemma double_fixed: "rnd a = Fin a \<Longrightarrow> rnd_val a = a \<and> \<bar>a\<bar> < 2 ^ 1024"
  by (cases a rule: rnd_cases) simp_all

section \<open>Double arithmetic: the literals and the fields of a result\<close>

lemmas calc64_unfold = calculateTax64_def Let_def TaxResults.select_convs

lemma rate_values:
  "rnd 0.12 = Fin (1080863910568919 / 2 ^ 53)"
  "rnd 0.04 = Fin (5764607523034235 / 2 ^ 57)"
  "rnd 0.0481 = Fin (6931940546448667 / 2 ^ 57)"
  "rnd 0.05 = Fin (3602879701896397 / 2 ^ 56)"
  "rnd 0.1 = Fin (3602879701896397 / 2 ^ 55)"
  "rnd 0.15 = Fin (5404319552844595 / 2 ^ 55)"
  "rnd 0.2 = Fin (3602879701896397 / 2 ^ 54)"
  "rnd 0.25 = Fin (1 / 4)"
  "rnd 0.3 = Fin (5404319552844595 / 2 ^ 54)"
  by (simp_all add: ev)

lemma integer_literals:
  "rnd 0 = Fin 0" "rnd 12 = Fin 12" "rnd 50 = Fin 50" "rnd 100 = Fin 100" "rnd 200 = Fin 200"
  "rnd 2400 = Fin 2400" "rnd 75000 = Fin 75000" "rnd 400000 = Fin 400000"
  "rnd 800000 = Fin 800000" "rnd 1200000 = Fin 1200000" "rnd 1600000 = Fin 1600000"
  "rnd 2000000 = Fin 2000000" "rnd 2400000 = Fin 2400000"
  by (simp_all add: ev)

lemma grossSalary64: "grossSalary (calculateTax64 g p e c) = g"
  by (simp only: calc64_unfold)

lemma basicPay64:
  "basicPay (calculateTax64 g p e c) = fmul g (fdivc (jmax (Fin 50) p) 100)"
  by (simp only: calc64_unfold)

lemma employeePF64:
  "employeePF (calculateTax64 g p e c) = fmul (basicPay (calculateTax64 g p e c)) (rnd 0.12)"
  by (simp only: calc64_unfold)

lemma employerPF64:
  "employerPF (calculateTax64 g p e c) = fmul (basicPay (calculateTax64 g p e c)) (rnd 0.12)"
  by (simp only: calc64_unfold)

lemma gratuityAmount64:
  "gratuityAmount (calculateTax64 g p e c) =
     (if c then fmul (basicPay (calculateTax64 g p e c)) (rnd 0.0481) else Fin 0)"
  by (simp only: calc64_unfold)

lemma netSalary64:
  "netSalary (calculateTax64 g p e c) =
     fsub (fsub g (gratuityAmount (calculateTax64 g p e c)))
       (if e then fadd (employeePF (calculateTax64 g p e c)) (employerPF (calculateTax64 g p e c))
        else employeePF (calculateTax64 g p e c))"
  by (simp only: calc64_unfold)

lemma taxableIncome64:
  "taxableIncome (calculateTax64 g p e c) = jmax (Fin 0) (fsub g (Fin 75000))"
  by (simp only: calc64_unfold)

lemma incomeTax64:
  "incomeTax (calculateTax64 g p e c) = slabTax64 (taxableIncome (calculateTax64 g p e c))"
  by (simp only: calc64_unfold slabTax64_def)

lemma cess64:
  "cess (calculateTax64 g p e c) = fmul (incomeTax (calculateTax64 g p e c)) (rnd 0.04)"
  by (simp only: calc64_unfold)

lemma professionalTax64:
  "professionalTax (calculateTax64 g p e c) = fmul (Fin 12) (Fin 200)"
  by (simp only: calc64_unfold)

lemma totalTax64:
  "totalTax (calculateTax64 g p e c) =
     fadd (fadd (incomeTax (calculateTax64 g p e c)) (cess (calculateTax64 g p e c)))
       (professionalTax (calculateTax64 g p e c))"
  by (simp only: calc64_unfold)

lemma totalDeductions64:
  "totalDeductions (calculateTax64 g p e c) =
     fadd (gratuityAmount (calculateTax64 g p e c))
       (if e then fadd (employeePF (calculateTax64 g p e c)) (employerPF (calculateTax64 g p e c))
        else employeePF (calculateTax64 g p e c))"
  by (simp only: calc64_unfold)

lemma inHandSalary64:
  "inHandSalary (calculateTax64 g p e c) =
     fsub (netSalary (calculateTax64 g p e c)) (totalTax (calculateTax64 g p e c))"
  by (simp only: calc64_unfold)

lemma inHandSalaryPerMonth64:
  "inHandSalaryPerMonth (calculateTax64 g p e c) = fdivc (inHandSalary (calculateTax64 g p e c)) 12"
  by (simp only: calc64_unfold)

section \<open>Double arithmetic: signs\<close>

lemma jle_zero_cases:
  assumes "jle (Fin 0) x"
  obtains a where "x = Fin a" "0 \<le> a" | "x = PInf"
  using assms by (cases x) simp_all

lemma jle_not_NaN: "jle x y \<Longrightarrow> x \<noteq> NaN \<and> y \<noteq> NaN"
  by (cases x; cases y) simp_all

lemma fadd_nonneg: "jle (Fin 0) x \<Longrightarrow> jle (Fin 0) y \<Longrightarrow> jle (Fin 0) (fadd x y)"
  by (erule jle_zero_cases; erule jle_zero_cases) (simp_all add: rnd_nonneg)

lemma fmul_rate_nonneg: "0 < r \<Longrightarrow> jle (Fin 0) x \<Longrightarrow> jle (Fin 0) (fmul (Fin r) x)"
  by (erule jle_zero_cases) (simp_all add: rnd_nonneg)

lemma fmul_nonneg_rate: "0 < r \<Longrightarrow> jle (Fin 0) x \<Longrightarrow> jle (Fin 0) (fmul x (Fin r))"
  by (erule jle_zero_cases) (simp_all add: rnd_nonneg)

lemma jmax_zero_nonneg: "x \<noteq> NaN \<Longrightarrow> jle (Fin 0) (jmax (Fin 0) x)"
  by (cases x) simp_all

lemma fsub_const_not_NaN: "x \<noteq> NaN \<Longrightarrow> fsub x (Fin k) \<noteq> NaN"
  by (cases x) (simp_all add: fsub_def)

lemma jmin_const_not_NaN: "x \<noteq> NaN \<Longrightarrow> jmin x (Fin k) \<noteq> NaN"
  by (cases x) simp_all

lemma slab_segment_nonneg:
  "0 < r \<Longrightarrow> t \<noteq> NaN \<Longrightarrow>
     jle (Fin 0) (fmul (Fin r) (jmax (Fin 0) (fsub (jmin t (Fin u)) (Fin l))))"
  by (intro fmul_rate_nonneg jmax_zero_nonneg fsub_const_not_NaN jmin_const_not_NaN)

lemma slab_top_nonneg:
  "0 < r \<Longrightarrow> t \<noteq> NaN \<Longrightarrow> jle (Fin 0) (fmul (Fin r) (jmax (Fin 0) (fsub t (Fin l))))"
  by (intro fmul_rate_nonneg jmax_zero_nonneg fsub_const_not_NaN)

lemma slabTax64_nonneg: "t \<noteq> NaN \<Longrightarrow> jle (Fin 0) (slabTax64 t)"
  unfolding slabTax64_def rate_values
  by (intro fadd_nonneg slab_segment_nonneg slab_top_nonneg) simp_all

lemma taxableIncome64_nonneg:
  "g \<noteq> NaN \<Longrightarrow> jle (Fin 0) (taxableIncome (calculateTax64 g p e c))"
  unfolding taxableIncome64 by (intro jmax_zero_nonneg fsub_const_not_NaN)

lemma add_2400: "jle (Fin 0) s \<Longrightarrow> jle (Fin 2400) (fadd s (Fin 2400))"
proof (erule jle_zero_cases)
  fix a :: real
  assume "s = Fin a" "0 \<le> a"
  then show ?thesis
    using rnd_mono [of 2400 "a + 2400"] by (simp add: integer_literals)
next
  assume "s = PInf"
  then show ?thesis by simp
qed

lemma fadd_is_double: "is_double (fadd x y)"
  by (cases x; cases y) (simp_all add: rnd_is_double)

lemma fmul_is_double: "is_double (fmul x y)"
  by (cases x; cases y) (simp_all add: rnd_is_double)

lemma fsub_zero: "is_double x \<Longrightarrow> fsub x (Fin 0) = x"
  by (cases x) (simp_all add: fsub_def)

lemma fadd_zero_left: "is_double y \<Longrightarrow> fadd (Fin 0) y = y"
  by (cases y) simp_all

section \<open>Bounds on the tax fields\<close>

text \<open>
  Claim C9 says that taxableIncome, incomeTax and cess are at least 0 and totalTax at least
  2400 for every input. The function accepts NaN, and \<^verbatim>\<open>Math.max(0, NaN)\<close> is NaN: for
  grossSalary NaN the four fields are NaN and all four comparisons are false.
\<close>

theorem tax_fields_NaN_counterexample:
  "\<not> jle (Fin 0) (taxableIncome (calculateTax64 NaN (Fin 50) False False)) \<and>
   \<not> jle (Fin 0) (incomeTax (calculateTax64 NaN (Fin 50) False False)) \<and>
   \<not> jle (Fin 0) (cess (calculateTax64 NaN (Fin 50) False False)) \<and>
   \<not> jle (Fin 2400) (totalTax (calculateTax64 NaN (Fin 50) False False))"
proof -
  have ti: "taxableIncome (calculateTax64 NaN (Fin 50) False False) = NaN"
    by (simp add: taxableIncome64 fsub_def)
  have it: "incomeTax (calculateTax64 NaN (Fin 50) False False) = NaN"
    by (simp add: incomeTax64 ti slabTax64_def fsub_def rate_values)
  have ce: "cess (calculateTax64 NaN (Fin 50) False False) = NaN"
    by (simp add: cess64 it)
  have tt: "totalTax (calculateTax64 NaN (Fin 50) False False) = NaN"
    by (simp add: totalTax64 it)
  show ?thesis
    by (simp add: ti it ce tt)
qed

text \<open>
  Claim C9, amended. For every input whose grossSalary is not NaN, a negative or infinite
  grossSalary and any basicPayPercentage included, taxableIncome, incomeTax and cess are
  at least 0 and totalTax is at least 2400, in the arithmetic of the code.
\<close>

theorem tax_fields_lower_bounds64:
  "g \<noteq> NaN \<longrightarrow>
   jle (Fin 0) (taxableIncome (calculateTax64 g p e c)) \<and>
   jle (Fin 0) (incomeTax (calculateTax64 g p e c)) \<and>
   jle (Fin 0) (cess (calculateTax64 g p e c)) \<and>
   jle (Fin 2400) (totalTax (calculateTax64 g p e c))"
proof
  assume g: "g \<noteq> NaN"
  have ti: "jle (Fin 0) (taxableIncome (calculateTax64 g p e c))"
    using g by (rule taxableIncome64_nonneg)
  then have "taxableIncome (calculateTax64 g p e c) \<noteq> NaN"
    by (simp add: jle_not_NaN)
  then have it: "jle (Fin 0) (incomeTax (calculateTax64 g p e c))"
    unfolding incomeTax64 by (rule slabTax64_nonneg)
  have ce: "jle (Fin 0) (cess (calculateTax64 g p e c))"
    unfolding cess64 rate_values using it by (intro fmul_nonneg_rate) simp_all
  have "jle (Fin 2400) (totalTax (calculateTax64 g p e c))"
    unfolding totalTax64 professionalTax64
    using it ce by (simp add: integer_literals add_2400 fadd_nonneg)
  with ti it ce show "jle (Fin 0) (taxableIncome (calculateTax64 g p e c)) \<and>
   jle (Fin 0) (incomeTax (calculateTax64 g p e c)) \<and>
   jle (Fin 0) (cess (calculateTax64 g p e c)) \<and>
   jle (Fin 2400) (totalTax (calculateTax64 g p e c))"
    by simp
qed

theorem tax_fields_lower_bounds64_witness:
  "Fin (- 100) \<noteq> NaN \<and>
   jle (Fin 0) (taxableIncome (calculateTax64 (Fin (- 100)) (Fin (- 5)) True True)) \<and>
   jle (Fin 0) (incomeTax (calculateTax64 (Fin (- 100)) (Fin (- 5)) True True)) \<and>
   jle (Fin 0) (cess (calculateTax64 (Fin (- 100)) (Fin (- 5)) True True)) \<and>
   jle (Fin 2400) (totalTax (calculateTax64 (Fin (- 100)) (Fin (- 5)) True True))"
  using tax_fields_lower_bounds64 [of "Fin (- 100)" "Fin (- 5)" True True] by simp

section \<open>The accounting identity\<close>

text \<open>
  The run at grossSalary 1, field by field.
\<close>

lemma slab0: "slabTax64 (Fin 0) = Fin 0"
  by (simp add: slabTax64_def rate_values fsub_def ev)

lemma at_one:
  "basicPay (calculateTax64 (Fin 1) (Fin 50) False False) = Fin (1 / 2)"
  "employeePF (calculateTax64 (Fin 1) (Fin 50) False False) = Fin (1080863910568919 / 2 ^ 54)"
  "netSalary (calculateTax64 (Fin 1) (Fin 50) False False) = Fin (2116691824864133 / 2 ^ 51)"
  "totalTax (calculateTax64 (Fin 1) (Fin 50) False False) = Fin 2400"
  "totalDeductions (calculateTax64 (Fin 1) (Fin 50) False False) = Fin (1080863910568919 / 2 ^ 54)"
  "inHandSalary (calculateTax64 (Fin 1) (Fin 50) False False) = Fin (- 5275588731464581 / 2 ^ 41)"
proof -
  show bp: "basicPay (calculateTax64 (Fin 1) (Fin 50) False False) = Fin (1 / 2)"
    by (simp add: basicPay64 ev)
  show pf: "employeePF (calculateTax64 (Fin 1) (Fin 50) False False) = Fin (1080863910568919 / 2 ^ 54)"
    by (simp add: employeePF64 bp rate_values) (simp add: ev)
  have gr: "gratuityAmount (calculateTax64 (Fin 1) (Fin 50) False False) = Fin 0"
    by (simp add: gratuityAmount64)
  show net: "netSalary (calculateTax64 (Fin 1) (Fin 50) False False) = Fin (2116691824864133 / 2 ^ 51)"
    by (simp add: netSalary64 gr pf fsub_def) (simp add: ev)
  have ti: "taxableIncome (calculateTax64 (Fin 1) (Fin 50) False False) = Fin 0"
    by (simp add: taxableIncome64 fsub_def) (simp add: ev)
  have it: "incomeTax (calculateTax64 (Fin 1) (Fin 50) False False) = Fin 0"
    by (simp add: incomeTax64 ti slab0)
  have ce: "cess (calculateTax64 (Fin 1) (Fin 50) False False) = Fin 0"
    by (simp add: cess64 it rate_values) (simp add: ev)
  show tt: "totalTax (calculateTax64 (Fin 1) (Fin 50) False False) = Fin 2400"
    by (simp add: totalTax64 it ce professionalTax64) (simp add: ev)
  show "totalDeductions (calculateTax64 (Fin 1) (Fin 50) False False) = Fin (1080863910568919 / 2 ^ 54)"
    by (simp add: totalDeductions64 gr pf) (simp add: ev)
  show "inHandSalary (calculateTax64 (Fin 1) (Fin 50) False False) = Fin (- 5275588731464581 / 2 ^ 41)"
    by (simp add: inHandSalary64 net tt fsub_def) (simp add: ev)
qed

lemma sum_at_one:
  "fadd (fadd (inHandSalary (calculateTax64 (Fin 1) (Fin 50) False False))
               (totalTax (calculateTax64 (Fin 1) (Fin 50) False False)))
         (totalDeductions (calculateTax64 (Fin 1) (Fin 50) False False))
     = Fin (2251799813685371 / 2 ^ 51)"
  by (simp add: at_one) (simp add: ev)

text \<open>
  Claim C8 says that inHandSalary + totalTax + totalDeductions is grossSalary for every
  input. The three fields are rounded, and so is their sum: for grossSalary 1 and
  percentage 50 the sum is 2251799813685371 / 2^51, about 1.0000000000000546, not 1.
\<close>

theorem accounting_identity_counterexample:
  "\<not> fadd (fadd (inHandSalary (calculateTax64 (Fin 1) (Fin 50) False False))
                 (totalTax (calculateTax64 (Fin 1) (Fin 50) False False)))
           (totalDeductions (calculateTax64 (Fin 1) (Fin 50) False False))
       = grossSalary (calculateTax64 (Fin 1) (Fin 50) False False)"
  by (simp add: sum_at_one grossSalary64)

text \<open>
  Claim C8, amended. For every input, inHandSalary is
  ((grossSalary - gratuityAmount) - totalPFDeduction) - totalTax and totalDeductions is
  gratuityAmount + totalPFDeduction, each operation rounded to a double, where
  totalPFDeduction is employeePF + employerPF with employerPfIncluded and employeePF
  without. When considerGratuity is false and grossSalary is a double, inHandSalary is
  (grossSalary - totalDeductions) - totalTax in that arithmetic.
\<close>

theorem accounting_chain64:
  "grossSalary (calculateTax64 g p e c) = g \<and>
   totalDeductions (calculateTax64 g p e c) =
     fadd (gratuityAmount (calculateTax64 g p e c))
       (if e then fadd (employeePF (calculateTax64 g p e c)) (employerPF (calculateTax64 g p e c))
        else employeePF (calculateTax64 g p e c)) \<and>
   inHandSalary (calculateTax64 g p e c) =
     fsub (fsub (fsub g (gratuityAmount (calculateTax64 g p e c)))
       (if e then fadd (employeePF (calculateTax64 g p e c)) (employerPF (calculateTax64 g p e c))
        else employeePF (calculateTax64 g p e c)))
       (totalTax (calculateTax64 g p e c)) \<and>
   (is_double g \<and> \<not> c \<longrightarrow>
      inHandSalary (calculateTax64 g p e c) =
        fsub (fsub g (totalDeductions (calculateTax64 g p e c))) (totalTax (calculateTax64 g p e c)))"
proof (intro conjI impI)
  show "grossSalary (calculateTax64 g p e c) = g"
    by (rule grossSalary64)
  show "totalDeductions (calculateTax64 g p e c) =
     fadd (gratuityAmount (calculateTax64 g p e c))
       (if e then fadd (employeePF (calculateTax64 g p e c)) (employerPF (calculateTax64 g p e c))
        else employeePF (calculateTax64 g p e c))"
    by (rule totalDeductions64)
  show "inHandSalary (calculateTax64 g p e c) =
     fsub (fsub (fsub g (gratuityAmount (calculateTax64 g p e c)))
       (if e then fadd (employeePF (calculateTax64 g p e c)) (employerPF (calculateTax64 g p e c))
        else employeePF (calculateTax64 g p e c)))
       (totalTax (calculateTax64 g p e c))"
    unfolding inHandSalary64 netSalary64 ..
next
  assume h: "is_double g \<and> \<not> c"
  define pf where "pf = (if e then fadd (employeePF (calculateTax64 g p e c)) (employerPF (calculateTax64 g p e c))
        else employeePF (calculateTax64 g p e c))"
  have d: "is_double pf"
    unfolding pf_def employeePF64 by (simp add: fadd_is_double fmul_is_double)
  have gr: "gratuityAmount (calculateTax64 g p e c) = Fin 0"
    using h by (simp add: gratuityAmount64)
  have td: "totalDeductions (calculateTax64 g p e c) = pf"
    unfolding totalDeductions64 gr pf_def [symmetric] using d by (rule fadd_zero_left)
  have "netSalary (calculateTax64 g p e c) = fsub g pf"
    unfolding netSalary64 gr pf_def [symmetric] using h by (simp add: fsub_zero)
  then show "inHandSalary (calculateTax64 g p e c) =
        fsub (fsub g (totalDeductions (calculateTax64 g p e c))) (totalTax (calculateTax64 g p e c))"
    unfolding inHandSalary64 td by simp
qed

theorem accounting_chain64_witness:
  "is_double (Fin 1) \<and> \<not> False \<and>
   inHandSalary (calculateTax64 (Fin 1) (Fin 50) True False) =
     fsub (fsub (Fin 1) (totalDeductions (calculateTax64 (Fin 1) (Fin 50) True False)))
       (totalTax (calculateTax64 (Fin 1) (Fin 50) True False))"
proof -
  have d: "is_double (Fin 1) \<and> \<not> False"
    by (simp add: ev)
  from accounting_chain64 [of "Fin 1" "Fin 50" True False] d
  have "inHandSalary (calculateTax64 (Fin 1) (Fin 50) True False) =
     fsub (fsub (Fin 1) (totalDeductions (calculateTax64 (Fin 1) (Fin 50) True False)))
       (totalTax (calculateTax64 (Fin 1) (Fin 50) True False))"
    by blast
  with d show ?thesis
    by blast
qed

section \<open>Basic pay\<close>

lemma rnd_val_below_top:
  assumes x: "0 < x" and b: "x < 2 ^ 1023"
  shows "rnd_val x \<le> 2 ^ 1023"
proof -
  have lt: "x < 2 ^ 1024"
    using b power_strict_increasing [of 1023 1024 "2::real"] by simp
  have "expo x \<noteq> 1023"
  proof
    assume e: "expo x = 1023"
    show False
    proof (cases "2 powi (- 1022) \<le> x")
      case True
      then have "2 powi (expo x) \<le> x" by (rule expo_lower [OF x])
      then show False using b unfolding e by simp
    next
      case False
      then have "expo x = - 1022" using expo_subnormal [OF x] by simp
      then show False using e by simp
    qed
  qed
  then have "expo x + 1 \<le> 1023"
    using expo_range [OF x] by simp
  then have "(2::real) powi (expo x + 1) \<le> 2 powi 1023"
    by (intro power_int_increasing) simp_all
  then show ?thesis
    using rnd_val_upper [OF x lt] by simp
qed

lemma half_is_double: "rnd (1 / 2) = Fin (1 / 2)" "rnd 1 = Fin 1" "rnd 0.5 = Fin (1 / 2)"
  by (simp_all add: ev)

lemma ratio_finite:
  assumes d: "rnd pr = Fin pr"
  shows "\<exists>rr. rnd (max 50 pr / 100) = Fin rr \<and> 1 / 2 \<le> rr"
proof -
  define x where "x = max 50 pr / 100"
  have pr: "\<bar>pr\<bar> < 2 ^ 1024"
    using double_fixed [OF d] by simp
  have x0: "0 < x" and xh: "1 / 2 \<le> x"
    unfolding x_def by simp_all
  have "max 50 pr < 2 ^ 1024"
    using pr by (simp add: abs_less_iff)
  then have "x * 100 < 2 * 2 ^ 1023"
    unfolding x_def by simp
  then have "x < 2 ^ 1023"
    using x0 by linarith
  then have up: "rnd_val x \<le> 2 ^ 1023"
    by (rule rnd_val_below_top [OF x0])
  have lo: "1 / 2 \<le> rnd_val x"
    using rnd_val_mono [OF xh] double_fixed [OF half_is_double(1)] by simp
  have "(2::real) ^ 1023 < 2 ^ 1024"
    by (rule power_strict_increasing) simp_all
  with up lo have "\<bar>rnd_val x\<bar> < 2 ^ 1024"
    by linarith
  then have "rnd x = Fin (rnd_val x)"
    by (simp add: rnd_def Let_def)
  with lo show ?thesis
    unfolding x_def by blast
qed

text \<open>
  Claim C4 says that basicPay is grossSalary * max(50, basicPayPercentage) / 100 and at
  least half of grossSalary, for every grossSalary and basicPayPercentage. The function
  rejects no input, and for a negative grossSalary a percentage above 50 gives less than
  half: for grossSalary -100 and percentage 100 the basicPay is -100, below -50. The
  code divides the percentage by 100 first and multiplies after, each step rounded, so
  the product taken first gives another double: for grossSalary 900000 and percentage 55
  the basicPay is 8504035246080001 / 2^34, about 495000.00000000006, and
  900000 * 55 / 100 is 495000.
\<close>

theorem basicPay64_counterexample:
  "\<not> jle (fmul (Fin (- 100)) (rnd 0.5))
         (basicPay (calculateTax64 (Fin (- 100)) (Fin 100) False False)) \<and>
   basicPay (calculateTax64 (Fin 900000) (Fin 55) False False)
     \<noteq> fdivc (fmul (Fin 900000) (jmax (Fin 50) (Fin 55))) 100"
proof -
  have a: "basicPay (calculateTax64 (Fin (- 100)) (Fin 100) False False) = Fin (- 100)"
    by (simp add: basicPay64 ev)
  have b: "fmul (Fin (- 100)) (rnd 0.5) = Fin (- 50)"
    by (simp add: ev)
  have c: "basicPay (calculateTax64 (Fin 900000) (Fin 55) False False)
      = Fin (8504035246080001 / 2 ^ 34)"
    by (simp add: basicPay64 ev)
  have d: "fdivc (fmul (Fin 900000) (jmax (Fin 50) (Fin 55))) 100 = Fin 495000"
    by (simp add: ev)
  show ?thesis
    unfolding a b c d by simp
qed

text \<open>
  Claim C4, amended. For every grossSalary and basicPayPercentage, basicPay is
  grossSalary * (max(50, basicPayPercentage) / 100), the division first and each operation
  rounded to a double. It is grossSalary when the percentage is 100 and grossSalary is a
  double. It is at least grossSalary * 0.5 when grossSalary is at least 0 and the
  percentage is a double below Infinity (so neither NaN nor Infinity).
\<close>

theorem basicPay64_formula_and_floor:
  "basicPay (calculateTax64 g p e c) = fmul g (fdivc (jmax (Fin 50) p) 100) \<and>
   (is_double g \<longrightarrow> basicPay (calculateTax64 g (Fin 100) e c) = g) \<and>
   (jle (Fin 0) g \<and> is_double p \<and> jlt p PInf \<longrightarrow>
      jle (fmul g (rnd 0.5)) (basicPay (calculateTax64 g p e c)))"
proof (intro conjI impI)
  show "basicPay (calculateTax64 g p e c) = fmul g (fdivc (jmax (Fin 50) p) 100)"
    by (rule basicPay64)
next
  assume "is_double g"
  then show "basicPay (calculateTax64 g (Fin 100) e c) = g"
    by (cases g) (simp_all add: basicPay64 half_is_double)
next
  assume h: "jle (Fin 0) g \<and> is_double p \<and> jlt p PInf"
  have "\<exists>rr. fdivc (jmax (Fin 50) p) 100 = Fin rr \<and> 1 / 2 \<le> rr"
  proof (cases p)
    case (Fin pr)
    then have "rnd pr = Fin pr" using h by simp
    then show ?thesis
      using ratio_finite [of pr] Fin by (auto simp: max_def)
  next
    case NInf
    have q: "fdivc (jmax (Fin 50) p) 100 = Fin (1 / 2)"
      unfolding NInf by (simp add: half_is_double)
    have "(1::real) / 2 \<le> 1 / 2"
      by simp
    with q show ?thesis
      by blast
  qed (use h in simp_all)
  then obtain rr where r: "fdivc (jmax (Fin 50) p) 100 = Fin rr" and rr: "1 / 2 \<le> rr"
    by blast
  from h have "jle (Fin 0) g" by simp
  then show "jle (fmul g (rnd 0.5)) (basicPay (calculateTax64 g p e c))"
  proof (cases rule: jle_zero_cases)
    case (1 a)
    have "a * (1 / 2) \<le> a * rr"
      using rr 1(2) by (rule mult_left_mono)
    then have "jle (rnd (a * (1 / 2))) (rnd (a * rr))"
      by (rule rnd_mono)
    then show ?thesis
      unfolding basicPay64 r half_is_double 1(1) by simp
  next
    case 2
    then show ?thesis
      unfolding basicPay64 r half_is_double using rr by simp
  qed
qed

theorem basicPay64_formula_and_floor_witness:
  "is_double (Fin 1000) \<and> basicPay (calculateTax64 (Fin 1000) (Fin 100) False False) = Fin 1000 \<and>
   jle (Fin 0) (Fin 1000) \<and> is_double (Fin 30) \<and> jlt (Fin 30) PInf \<and>
   jle (fmul (Fin 1000) (rnd 0.5)) (basicPay (calculateTax64 (Fin 1000) (Fin 30) False False))"
proof -
  have h: "is_double (Fin 1000)" "jle (Fin 0) (Fin 1000) \<and> is_double (Fin 30) \<and> jlt (Fin 30) PInf"
    by (simp_all add: ev)
  from basicPay64_formula_and_floor [of "Fin 1000" "Fin 30" False False] h
  have "basicPay (calculateTax64 (Fin 1000) (Fin 100) False False) = Fin 1000"
    "jle (fmul (Fin 1000) (rnd 0.5)) (basicPay (calculateTax64 (Fin 1000) (Fin 30) False False))"
    by blast+
  with h show ?thesis
    by blast
qed

section \<open>Income tax below and above 400000\<close>

text \<open>
  Every operation of the slab expression is monotone on the values it meets, so the
  expression is; below 400000 every summand is 0; and a double above 400000 is above it
  by at least 1 / 2^34, which the first summand turns into a positive tax.
\<close>

lemma jle_top [simp]: "x \<noteq> NaN \<Longrightarrow> jle x PInf" "x \<noteq> NaN \<Longrightarrow> jle NInf x"
  by (cases x; simp)+

lemma jle_trans: "jle x y \<Longrightarrow> jle y z \<Longrightarrow> jle x z"
  by (cases x; cases y; cases z) simp_all


























end
